theory Spec2Isabelle
  imports Complex_Main "HOL-Library.AList"
begin

section \<open>JavaScript values\<close>

text \<open>
  A JavaScript number is NaN, an infinity or a finite value.  Finite values are kept as
  exact rationals: rounding of doubles and the sign of zero are not modelled.
\<close>

datatype jnum = NaN | PInf | NInf | Fin rat

text \<open>
  The values that flow through \<open>buildAttributes\<close> in \<open>src/model.js\<close>: \<open>undefined\<close>,
  \<open>null\<close>, booleans, numbers, strings, \<open>Date\<close> objects (with their time value, NaN for an
  invalid date), arrays and plain objects.  An object is the list of its own enumerable
  properties in insertion order; inherited properties are not modelled.
\<close>

datatype jv =
    JUndef
  | JNull
  | JBool bool
  | JNum jnum
  | JStr string
  | JDate jnum
  | JArr "jv list"
  | JObj "(string \<times> jv) list"

datatype error = TypeError

text \<open>
  Functions that \<open>buildAttributes\<close> calls and that are not defined under \<open>src/\<close>:
  lodash's \<open>_.parseInt\<close>, and the two mixins \<open>_.parseFloat\<close> and
  \<open>_.isValidISO8601String\<close>.  They are parameters of the model.  Each of them may
  throw: converting a value to a string is part of parsing it, and that conversion throws a
  TypeError for an object that has no usable \<open>toString\<close>.
\<close>

record env =
  parseInt :: "jv \<Rightarrow> error + jnum"
  parseFloat :: "jv \<Rightarrow> error + jnum"
  isValidISO8601String :: "jv \<Rightarrow> error + bool"

section \<open>The lodash predicates used by the builder\<close>

fun isObject :: "jv \<Rightarrow> bool" where
  "isObject (JObj _) = True"
| "isObject (JArr _) = True"
| "isObject (JDate _) = True"
| "isObject _ = False"

fun isArray :: "jv \<Rightarrow> bool" where
  "isArray (JArr _) = True"
| "isArray _ = False"

fun isString :: "jv \<Rightarrow> bool" where
  "isString (JStr _) = True"
| "isString _ = False"

fun isNull :: "jv \<Rightarrow> bool" where
  "isNull JNull = True"
| "isNull _ = False"

fun isUndefined :: "jv \<Rightarrow> bool" where
  "isUndefined JUndef = True"
| "isUndefined _ = False"

fun isBoolean :: "jv \<Rightarrow> bool" where
  "isBoolean (JBool _) = True"
| "isBoolean _ = False"

fun isNumber :: "jv \<Rightarrow> bool" where
  "isNumber (JNum _) = True"
| "isNumber _ = False"

fun isDate :: "jv \<Rightarrow> bool" where
  "isDate (JDate _) = True"
| "isDate _ = False"

text \<open>\<open>_.isNaN\<close> applied to the number a parser returned.\<close>

fun isNaN :: "jnum \<Rightarrow> bool" where
  "isNaN NaN = True"
| "isNaN _ = False"

text \<open>
  \<open>_.isEmpty\<close>: true for \<open>null\<close>, \<open>undefined\<close> and every value that is not a collection;
  for strings, arrays and objects it tests for no element.
\<close>

fun isEmpty :: "jv \<Rightarrow> bool" where
  "isEmpty (JStr s) = (s = [])"
| "isEmpty (JArr xs) = (xs = [])"
| "isEmpty (JObj kvs) = (kvs = [])"
| "isEmpty _ = True"

text \<open>Truthiness, as the operator \<open>||\<close> tests it.\<close>

fun truthy :: "jv \<Rightarrow> bool" where
  "truthy JUndef = False"
| "truthy JNull = False"
| "truthy (JBool b) = b"
| "truthy (JNum NaN) = False"
| "truthy (JNum (Fin r)) = (r \<noteq> 0)"
| "truthy (JNum _) = True"
| "truthy (JStr s) = (s \<noteq> [])"
| "truthy (JDate _) = True"
| "truthy (JArr _) = True"
| "truthy (JObj _) = True"

definition js_or :: "jv \<Rightarrow> jv \<Rightarrow> jv" where
  "js_or a b = (if truthy a then a else b)"

fun math_max :: "jnum \<Rightarrow> jnum \<Rightarrow> jnum" where
  "math_max NaN _ = NaN"
| "math_max _ NaN = NaN"
| "math_max PInf _ = PInf"
| "math_max _ PInf = PInf"
| "math_max NInf y = y"
| "math_max x NInf = x"
| "math_max (Fin a) (Fin b) = Fin (max a b)"

section \<open>Property access and iteration\<close>

definition digit_char :: "nat \<Rightarrow> char" where
  "digit_char d = char_of (48 + d)"

fun show_nat :: "nat \<Rightarrow> string" where
  "show_nat n = (if n < 10 then [digit_char n] else show_nat (n div 10) @ [digit_char (n mod 10)])"

definition is_digit :: "char \<Rightarrow> bool" where
  "is_digit c = (48 \<le> (of_char c :: nat) \<and> (of_char c :: nat) \<le> 57)"

text \<open>The array index a property name denotes, if it is a canonical decimal numeral.\<close>

definition index_of :: "string \<Rightarrow> nat option" where
  "index_of s =
     (if s \<noteq> [] \<and> list_all is_digit s \<and> (s = ''0'' \<or> hd s \<noteq> CHR ''0'')
      then Some (foldl (\<lambda>a c. 10 * a + ((of_char c :: nat) - 48)) 0 s)
      else None)"

text \<open>
  \<open>o[k]\<close>.  Reading a property of \<open>undefined\<close> or \<open>null\<close> throws a TypeError; every other
  value answers, with \<open>undefined\<close> for a property it does not have.
\<close>

fun get_prop :: "jv \<Rightarrow> string \<Rightarrow> error + jv" where
  "get_prop JUndef k = Inl TypeError"
| "get_prop JNull k = Inl TypeError"
| "get_prop (JObj kvs) k = Inr (case map_of kvs k of Some v \<Rightarrow> v | None \<Rightarrow> JUndef)"
| "get_prop (JArr xs) k =
     Inr (case index_of k of
            Some i \<Rightarrow> if i < length xs then xs ! i else JUndef
          | None \<Rightarrow> if k = ''length'' then JNum (Fin (of_nat (length xs))) else JUndef)"
| "get_prop (JStr s) k =
     Inr (case index_of k of
            Some i \<Rightarrow> if i < length s then JStr [s ! i] else JUndef
          | None \<Rightarrow> if k = ''length'' then JNum (Fin (of_nat (length s))) else JUndef)"
| "get_prop _ k = Inr JUndef"

text \<open>
  The pairs \<open>(key, value)\<close> that \<open>_.each(collection, function(val, key) ...)\<close> visits, in
  order.  Objects with a numeric \<open>length\<close> property, which some lodash versions walk as
  arrays, are walked as objects here.
\<close>

definition indexed :: "'a list \<Rightarrow> (string \<times> 'a) list" where
  "indexed xs = zip (map show_nat [0..<length xs]) xs"

fun entries :: "jv \<Rightarrow> (string \<times> jv) list" where
  "entries (JObj kvs) = kvs"
| "entries (JArr xs) = indexed xs"
| "entries (JStr s) = indexed (map (\<lambda>c. JStr [c]) s)"
| "entries _ = []"

definition bind :: "error + 'a \<Rightarrow> ('a \<Rightarrow> error + 'b) \<Rightarrow> error + 'b" where
  "bind m f = (case m of Inl x \<Rightarrow> Inl x | Inr v \<Rightarrow> f v)"

section \<open>The attribute builder\<close>

text \<open>\<open>_.isObject(x) ? x[key] : null\<close>, the guarded read that opens the loop body.\<close>

definition read_key :: "jv \<Rightarrow> string \<Rightarrow> error + jv" where
  "read_key x key = (if isObject x then get_prop x key else Inr JNull)"

text \<open>
  \<open>!_.isUndefined(attrsVal) ? attrsVal : (!_.isUndefined(defaultsVal) ? defaultsVal : z)\<close>
\<close>

definition fallback :: "jv \<Rightarrow> jv \<Rightarrow> jv \<Rightarrow> jv" where
  "fallback attrsVal defaultsVal z =
     (if \<not> isUndefined attrsVal then attrsVal
      else if \<not> isUndefined defaultsVal then defaultsVal else z)"

text \<open>
  The branch \<open>_.isString(val)\<close> of the loop body (lines 226 to 312): the value assigned to
  \<open>obj[key]\<close> for a leaf tag \<open>val\<close>.  Every path of that branch assigns, unless a parser
  throws.
\<close>

definition coerce :: "env \<Rightarrow> string \<Rightarrow> jv \<Rightarrow> jv \<Rightarrow> jv \<Rightarrow> error + jv" where
  "coerce e val jsonVal attrsVal defaultsVal =
    (if val = ''integer'' \<or> val = ''uinteger'' then
       (if jsonVal = JStr [] then
          Inr (if \<not> isUndefined defaultsVal then defaultsVal else JNum (Fin 0))
        else bind (parseInt e jsonVal) (\<lambda>intNumber.
          if isNaN intNumber then Inr (fallback attrsVal defaultsVal (JNum (Fin 0)))
          else Inr (JNum (if val = ''uinteger'' then math_max intNumber (Fin 0)
                          else intNumber))))
     else if val = ''float'' \<or> val = ''ufloat'' then
       (if jsonVal = JStr [] then
          Inr (if \<not> isUndefined defaultsVal then defaultsVal else JNum (Fin 0))
        else bind (parseFloat e jsonVal) (\<lambda>floatNumber.
          if isNaN floatNumber then Inr (fallback attrsVal defaultsVal (JNum (Fin 0)))
          else Inr (JNum (if val = ''ufloat'' then math_max floatNumber (Fin 0)
                          else floatNumber))))
     else if val = ''boolean'' then
       (if \<not> isBoolean jsonVal then Inr (fallback attrsVal defaultsVal (JBool False))
        else Inr jsonVal)
     else if val = ''id'' then
       (if \<not> isString jsonVal \<and> \<not> isNull jsonVal then
          Inr (fallback attrsVal defaultsVal JNull)
        else Inr jsonVal)
     else if val = ''string'' then
       (if \<not> isString jsonVal \<and> \<not> isNull jsonVal then
          Inr (fallback attrsVal defaultsVal JNull)
        else Inr jsonVal)
     else if val = ''timestamp'' then
       (if jsonVal = JStr [] then
          Inr (if \<not> isUndefined defaultsVal then defaultsVal else JNull)
        else if \<not> isNumber jsonVal \<and> \<not> isNull jsonVal then
          Inr (fallback attrsVal defaultsVal JNull)
        else Inr jsonVal)
     else if val = ''date'' then
       bind (isValidISO8601String e jsonVal) (\<lambda>iso.
         if \<not> iso \<and> \<not> isDate jsonVal \<and> \<not> isNull jsonVal then
           Inr (fallback attrsVal defaultsVal JNull)
         else Inr jsonVal)
     else Inr jsonVal)"

text \<open>
  The values the inner \<open>_.each(jsonVal, function(jsonKeyVal) ...)\<close> visits (line 193).
\<close>

definition each_values :: "jv \<Rightarrow> jv list" where
  "each_values x = map snd (entries x)"

text \<open>Sizes of schema nodes, for the termination of the builder.\<close>

definition msz :: "jv \<Rightarrow> nat" where
  "msz v = (case v of JStr _ \<Rightarrow> 0 | _ \<Rightarrow> size v)"

definition top_sz :: "jv \<Rightarrow> nat" where
  "top_sz v = (case v of JStr s \<Rightarrow> length s | _ \<Rightarrow> size v)"

definition vsz :: "(string \<times> jv) list \<Rightarrow> nat" where
  "vsz kvs = sum_list (map (\<lambda>p. Suc (msz (snd p))) kvs)"

lemma vsz_zip: "length ks = length xs \<Longrightarrow> vsz (zip ks xs) = sum_list (map (\<lambda>v. Suc (msz v)) xs)"
  by (induction ks xs rule: list_induct2) (simp_all add: vsz_def)

lemma msz_le: "msz v \<le> size v"
  by (cases v) (simp_all add: msz_def)

lemma sum_msz_le: "sum_list (map (\<lambda>v. Suc (msz v)) xs) \<le> size_list size xs"
  by (induction xs) (simp_all add: add_mono msz_le)

lemma vsz_obj: "vsz kvs \<le> size_list (size_prod (\<lambda>_. 0) size) kvs"
  by (induction kvs) (auto simp: vsz_def intro!: le_SucI add_mono msz_le)

lemma vsz_chars: "sum_list (map ((\<lambda>v. Suc (msz v)) \<circ> (\<lambda>c. JStr [c])) s) = length s"
  by (induction s) (simp_all add: msz_def)

lemma vsz_entries: "vsz (entries S) \<le> top_sz S"
proof (cases S)
  case (JArr xs)
  then show ?thesis using sum_msz_le[of xs] by (simp add: top_sz_def indexed_def vsz_zip)
next
  case (JObj kvs)
  then show ?thesis using vsz_obj[of kvs] by (simp add: top_sz_def)
next
  case (JStr s)
  then show ?thesis by (simp add: top_sz_def indexed_def vsz_zip vsz_chars)
qed (simp_all add: vsz_def top_sz_def)

lemma index_of_0: "index_of ''0'' = Some 0"
  by (simp add: index_of_def is_digit_def)

lemma first_elem_smaller:
  assumes "isArray val" "get_prop val ''0'' = Inr v" "\<not> isString v" "\<not> isEmpty v"
  shows "top_sz v < msz val"
proof -
  from assms(1) obtain xs where val: "val = JArr xs" by (cases val) simp_all
  with assms(2,4) obtain x rest where xs: "xs = x # rest" and v: "v = x"
    by (cases xs) (auto simp: index_of_0)
  from assms(3) have "top_sz v = size v" by (cases v) (simp_all add: top_sz_def)
  then show ?thesis using val xs v by (simp add: msz_def)
qed

lemma object_sizes: "isObject val \<Longrightarrow> top_sz val = msz val"
  by (cases val) (simp_all add: top_sz_def msz_def)

lemma bind_cong [fundef_cong]:
  "m = m' \<Longrightarrow> (\<And>v. m' = Inr v \<Longrightarrow> f v = f' v) \<Longrightarrow> bind m f = bind m' f'"
  by (cases m') (simp_all add: bind_def)

text \<open>
  \<open>buildAttributes\<close> (lines 136 to 316).  \<open>each_key\<close> is the outer \<open>_.each(schema, ...)\<close>
  with the object \<open>obj\<close> built so far; \<open>build_val\<close> is the loop body after the four guarded
  reads, returning \<open>None\<close> where the body leaves \<open>obj[key]\<close> unassigned; \<open>build_elems\<close> is
  the inner loop that pushes one recursive result for each element.
\<close>

function (sequential)
  buildAttributes :: "env \<Rightarrow> jv \<Rightarrow> jv \<Rightarrow> jv \<Rightarrow> jv \<Rightarrow> jv \<Rightarrow> error + jv"
  and each_key :: "env \<Rightarrow> (string \<times> jv) list \<Rightarrow> jv \<Rightarrow> jv \<Rightarrow> jv \<Rightarrow> jv
                     \<Rightarrow> (string \<times> jv) list \<Rightarrow> error + (string \<times> jv) list"
  and build_val :: "env \<Rightarrow> jv \<Rightarrow> jv \<Rightarrow> jv \<Rightarrow> jv \<Rightarrow> jv \<Rightarrow> error + jv option"
  and build_elems :: "env \<Rightarrow> jv \<Rightarrow> jv \<Rightarrow> jv list \<Rightarrow> jv \<Rightarrow> jv \<Rightarrow> error + jv list"
where
  "buildAttributes e schema defaults json attrs ignoredAttrs =
     bind (each_key e (entries schema) defaults json attrs ignoredAttrs [])
          (\<lambda>obj. Inr (JObj obj))"
| "each_key e [] defaults json attrs ignoredAttrs obj = Inr obj"
| "each_key e ((key, val) # rest) defaults json attrs ignoredAttrs obj =
     bind (read_key json key) (\<lambda>jsonVal.
     bind (read_key defaults key) (\<lambda>defaultsVal.
     bind (read_key attrs key) (\<lambda>attrsVal.
     bind (read_key ignoredAttrs key) (\<lambda>ignoredAttrsVal.
     bind (build_val e val defaultsVal jsonVal attrsVal ignoredAttrsVal) (\<lambda>r.
       each_key e rest defaults json attrs ignoredAttrs
         (case r of None \<Rightarrow> obj | Some v \<Rightarrow> AList.update key v obj))))))"
| "build_val e val defaultsVal jsonVal attrsVal ignoredAttrsVal =
     (if ignoredAttrsVal = JBool True then Inr None
      else if isObject val \<and> isEmpty val then
        Inr (Some (fallback attrsVal defaultsVal (JObj [])))
      else if isArray val then
        (if isNull jsonVal \<or> isUndefined jsonVal then
           Inr (Some (fallback attrsVal defaultsVal (JArr [])))
         else bind (get_prop val ''0'') (\<lambda>val0.
           if isString val0 \<or> isEmpty val0 then Inr (Some (js_or jsonVal attrsVal))
           else if isEmpty jsonVal then
             Inr (Some (if \<not> isUndefined defaultsVal then defaultsVal else JArr []))
           else bind (build_elems e val0 defaultsVal (each_values jsonVal) attrsVal
                        ignoredAttrsVal)
                  (\<lambda>rs. Inr (Some (JArr rs)))))
      else if isObject val then
        (if isNull jsonVal \<or> isUndefined jsonVal then
           Inr (Some (fallback attrsVal defaultsVal (JObj [])))
         else if isEmpty jsonVal then
           Inr (Some (if \<not> isUndefined defaultsVal then defaultsVal else JObj []))
         else bind (buildAttributes e val defaultsVal jsonVal attrsVal ignoredAttrsVal)
                (\<lambda>r. Inr (Some r)))
      else (case val of
              JStr tag \<Rightarrow> bind (coerce e tag jsonVal attrsVal defaultsVal)
                            (\<lambda>v. Inr (Some v))
            | _ \<Rightarrow> Inr None))"
| "build_elems e val0 defaultsVal [] attrsVal ignoredAttrsVal = Inr []"
| "build_elems e val0 defaultsVal (jsonKeyVal # others) attrsVal ignoredAttrsVal =
     bind (buildAttributes e val0 defaultsVal jsonKeyVal attrsVal ignoredAttrsVal) (\<lambda>r.
     bind (build_elems e val0 defaultsVal others attrsVal ignoredAttrsVal) (\<lambda>rs.
       Inr (r # rs)))"
  by pat_completeness auto

termination
proof (relation "inv_image (less_than <*lex*> less_than) (\<lambda>x. case x of
       Inl (Inl (e, schema, r)) \<Rightarrow> (3 * top_sz schema + 1, 0::nat)
     | Inl (Inr (e, kvs, r)) \<Rightarrow> (3 * vsz kvs, 0)
     | Inr (Inl (e, val, r)) \<Rightarrow> (3 * msz val + 2, 0)
     | Inr (Inr (e, val0, d, xs, r)) \<Rightarrow> (3 * top_sz val0 + 2, length xs))",
     goal_cases)
  case 1
  show ?case by (intro wf_inv_image wf_lex_prod wf_less_than)
next
  case (2 e schema defaults json attrs ignoredAttrs)
  show ?case using vsz_entries[of schema] by simp
next
  case 3
  show ?case by (simp add: vsz_def)
next
  case 4
  show ?case by (simp add: vsz_def)
next
  case 5
  then show ?case using first_elem_smaller by simp
next
  case 6
  then show ?case by (simp add: object_sizes)
next
  case 7
  show ?case by simp
next
  case 8
  show ?case by simp
qed

definition peek :: "jv \<Rightarrow> string \<Rightarrow> jv" where
  "peek x key = (case read_key x key of Inr v \<Rightarrow> v | Inl _ \<Rightarrow> JUndef)"

section \<open>Resolving and merging schemas\<close>

text \<open>
  A schema or defaults property is "Object or Function"; \<open>_.result\<close> calls the function.
\<close>

datatype lazy = Static jv | Producer "unit \<Rightarrow> jv"

fun result :: "lazy \<Rightarrow> jv" where
  "result (Static v) = v"
| "result (Producer f) = f ()"

record model =
  schema :: lazy
  baseSchema :: lazy

definition own :: "(string \<times> jv) list \<Rightarrow> string \<Rightarrow> jv" where
  "own kvs k = (case map_of kvs k of Some v \<Rightarrow> v | None \<Rightarrow> JUndef)"

text \<open>
  lodash's \<open>_.merge\<close> on these values.  For each property of the source: an array or plain
  object is merged recursively into the destination's value (into a fresh \<open>[]\<close> or \<open>{}\<close> if
  that is of another kind); any other value that is not \<open>undefined\<close> replaces the
  destination's value; the property is then assigned.
\<close>

function merge_val :: "jv \<Rightarrow> jv \<Rightarrow> jv"
  and merge_obj :: "(string \<times> jv) list \<Rightarrow> (string \<times> jv) list \<Rightarrow> (string \<times> jv) list"
  and merge_arr :: "jv list \<Rightarrow> jv list \<Rightarrow> jv list"
where
  "merge_val value source =
     (case source of
        JArr ss \<Rightarrow> JArr (merge_arr (case value of JArr ds \<Rightarrow> ds | _ \<Rightarrow> []) ss)
      | JObj sk \<Rightarrow> JObj (merge_obj (case value of JObj dk \<Rightarrow> dk | _ \<Rightarrow> []) sk)
      | JUndef \<Rightarrow> value
      | _ \<Rightarrow> source)"
| "merge_obj object [] = object"
| "merge_obj object ((key, source) # rest) =
     merge_obj (AList.update key (merge_val (own object key) source) object) rest"
| "merge_arr object [] = object"
| "merge_arr [] (source # rest) = merge_val JUndef source # merge_arr [] rest"
| "merge_arr (value # object) (source # rest) = merge_val value source # merge_arr object rest"
  by pat_completeness auto
termination
  by (relation "measure (\<lambda>x. case x of
        Inl (value, source) \<Rightarrow> size source
      | Inr (Inl (object, sk)) \<Rightarrow> size_list (size_prod (\<lambda>_. 0) size) sk
      | Inr (Inr (object, ss)) \<Rightarrow> size_list size ss)") simp_all

text \<open>
  \<open>_.merge(object, source)\<close> at the top: a destination that is not an object is returned
  as it is.  An array destination is only modelled against an array source, since the
  values here have no arrays with named properties.
\<close>

fun merge :: "jv \<Rightarrow> jv \<Rightarrow> jv" where
  "merge (JObj dk) (JObj sk) = JObj (merge_obj dk sk)"
| "merge (JObj dk) (JArr ss) = JObj (merge_obj dk (indexed ss))"
| "merge (JArr ds) (JArr ss) = JArr (merge_arr ds ss)"
| "merge object _ = object"

text \<open>\<open>combinedSchema\<close> (lines 70 to 74).\<close>

definition combinedSchema :: "model \<Rightarrow> jv" where
  "combinedSchema this = (let schema = result (schema this) in merge schema (result (baseSchema this)))"

section \<open>A sample environment\<close>

definition is_space :: "char \<Rightarrow> bool" where
  "is_space c = ((of_char c :: nat) \<in> {9, 10, 11, 12, 13, 32})"

definition digits_val :: "string \<Rightarrow> nat" where
  "digits_val s = foldl (\<lambda>a c. 10 * a + ((of_char c :: nat) - 48)) 0 s"

text \<open>A sign, if any, and the rest of the string.\<close>

fun split_sign :: "string \<Rightarrow> bool \<times> string" where
  "split_sign (c # cs) =
     (if c = CHR ''-'' then (True, cs) else if c = CHR ''+'' then (False, cs) else (False, c # cs))"
| "split_sign [] = (False, [])"

definition signed :: "bool \<Rightarrow> rat \<Rightarrow> jnum" where
  "signed neg r = Fin (if neg then - r else r)"

text \<open>
  The values whose conversion to a string throws a TypeError: an object with an own
  property \<open>toString\<close> (none of the values here is callable, and the inherited \<open>valueOf\<close>
  returns the object itself), and an array that holds such a value, since an array is
  converted by joining its elements.
\<close>

fun unprintable :: "jv \<Rightarrow> bool" where
  "unprintable (JObj kvs) = (map_of kvs ''toString'' \<noteq> None)"
| "unprintable (JArr xs) = list_ex unprintable xs"
| "unprintable _ = False"

text \<open>
  The concrete examples below run in a sample environment.  \<open>decimal_int\<close> follows the
  global \<open>parseInt\<close>, to which \<open>_.parseInt\<close> passes its argument, in radix 10: leading white
  space, a sign, then the longest run of decimal digits, NaN if there is none; a finite
  number is truncated towards zero; an array is read through its first element; every
  other value gives NaN.  Hexadecimal prefixes and the exponent notation of very large or
  very small numbers are outside this sample.
\<close>

fun decimal_int :: "jv \<Rightarrow> jnum" where
  "decimal_int (JStr s) =
     (let (neg, t) = split_sign (dropWhile is_space s); ds = takeWhile is_digit t
      in if ds = [] then NaN else signed neg (of_nat (digits_val ds)))"
| "decimal_int (JNum (Fin r)) = Fin (of_int (if r < 0 then \<lceil>r\<rceil> else \<lfloor>r\<rfloor>))"
| "decimal_int (JArr (x # xs)) = decimal_int x"
| "decimal_int _ = NaN"

definition sample_parseInt :: "jv \<Rightarrow> error + jnum" where
  "sample_parseInt x = (if unprintable x then Inl TypeError else Inr (decimal_int x))"

text \<open>
  Modelled from the spec: \<open>_.parseFloat\<close> is a mixin that is not under \<open>src/\<close>; the spec
  says that a float "parses to a finite number".  The sample reads a number as itself and a
  string as a sign, decimal digits and an optional fraction.
\<close>

fun decimal_float :: "jv \<Rightarrow> jnum" where
  "decimal_float (JStr s) =
     (let (neg, t) = split_sign (dropWhile is_space s);
          ds = takeWhile is_digit t;
          rest = dropWhile is_digit t;
          fs = (case rest of c # cs \<Rightarrow> if c = CHR ''.'' then takeWhile is_digit cs else []
                | [] \<Rightarrow> [])
      in if ds = [] \<and> fs = [] then NaN
         else signed neg (of_nat (digits_val ds) + of_nat (digits_val fs) / 10 ^ length fs))"
| "decimal_float (JNum n) = n"
| "decimal_float (JArr (x # xs)) = decimal_float x"
| "decimal_float _ = NaN"

definition sample_parseFloat :: "jv \<Rightarrow> error + jnum" where
  "sample_parseFloat x = (if unprintable x then Inl TypeError else Inr (decimal_float x))"

text \<open>
  Modelled from the spec: \<open>_.isValidISO8601String\<close> is a mixin that is not under \<open>src/\<close>;
  the spec asks for an "ISO-8601 string".  The sample accepts the shape
  \<open>YYYY-MM-DDTHH:MM:SSZ\<close> and nothing else.
\<close>

fun iso_shape :: "string \<Rightarrow> string \<Rightarrow> bool" where
  "iso_shape [] [] = True"
| "iso_shape (p # ps) (c # cs) =
     ((if p = CHR ''d'' then is_digit c else c = p) \<and> iso_shape ps cs)"
| "iso_shape _ _ = False"

definition sample_isValidISO8601String :: "jv \<Rightarrow> error + bool" where
  "sample_isValidISO8601String x =
     Inr (case x of JStr s \<Rightarrow> iso_shape ''dddd-dd-ddTdd:dd:ddZ'' s | _ \<Rightarrow> False)"

definition sample_env :: env where
  "sample_env = \<lparr> parseInt = sample_parseInt, parseFloat = sample_parseFloat,
                  isValidISO8601String = sample_isValidISO8601String \<rparr>"

section \<open>Basic facts\<close>

lemma read_key_total: "read_key x key = Inr (peek x key)"
  by (cases x) (simp_all add: read_key_def peek_def)

lemma bind_Inr [simp]: "bind (Inr v) f = f v"
  by (simp add: bind_def)

lemma bind_Inl [simp]: "bind (Inl x) f = Inl x"
  by (simp add: bind_def)

lemma bind_eq_Inr: "bind m f = Inr r \<longleftrightarrow> (\<exists>v. m = Inr v \<and> f v = Inr r)"
  by (cases m) simp_all

declare build_val.simps [simp del] buildAttributes.simps [simp del]

lemma build_val_ignored: "build_val e val defaultsVal jsonVal attrsVal (JBool True) = Inr None"
  by (simp add: build_val.simps)

lemma build_val_marker:
  "ign \<noteq> JBool True \<Longrightarrow> val = JArr [] \<or> val = JObj [] \<or> val = JDate t \<Longrightarrow>
   build_val e val defaultsVal jsonVal attrsVal ign
     = Inr (Some (fallback attrsVal defaultsVal (JObj [])))"
  by (auto simp: build_val.simps)

lemma build_val_leaf:
  "ign \<noteq> JBool True \<Longrightarrow>
   build_val e (JStr tag) defaultsVal jsonVal attrsVal ign
     = bind (coerce e tag jsonVal attrsVal defaultsVal) (\<lambda>v. Inr (Some v))"
  by (simp add: build_val.simps)

lemma build_val_array:
  "ign \<noteq> JBool True \<Longrightarrow>
   build_val e (JArr (val0 # vs)) defaultsVal jsonVal attrsVal ign =
     (if isNull jsonVal \<or> isUndefined jsonVal then
        Inr (Some (fallback attrsVal defaultsVal (JArr [])))
      else if isString val0 \<or> isEmpty val0 then Inr (Some (js_or jsonVal attrsVal))
      else if isEmpty jsonVal then
        Inr (Some (if \<not> isUndefined defaultsVal then defaultsVal else JArr []))
      else bind (build_elems e val0 defaultsVal (each_values jsonVal) attrsVal ign)
             (\<lambda>rs. Inr (Some (JArr rs))))"
  by (simp add: build_val.simps index_of_0)

lemma build_val_object:
  "ign \<noteq> JBool True \<Longrightarrow>
   build_val e (JObj (p # ps)) defaultsVal jsonVal attrsVal ign =
     (if isNull jsonVal \<or> isUndefined jsonVal then
        Inr (Some (fallback attrsVal defaultsVal (JObj [])))
      else if isEmpty jsonVal then
        Inr (Some (if \<not> isUndefined defaultsVal then defaultsVal else JObj []))
      else bind (buildAttributes e (JObj (p # ps)) defaultsVal jsonVal attrsVal ign)
             (\<lambda>r. Inr (Some r)))"
  by (simp add: build_val.simps)

lemma build_val_other:
  "ign \<noteq> JBool True \<Longrightarrow> val = JUndef \<or> val = JNull \<or> val = JBool b \<or> val = JNum n \<Longrightarrow>
   build_val e val defaultsVal jsonVal attrsVal ign = Inr None"
  by (auto simp: build_val.simps)

lemma each_key_step:
  "each_key e ((key, val) # rest) defaults json attrs ignoredAttrs obj =
     bind (build_val e val (peek defaults key) (peek json key) (peek attrs key)
             (peek ignoredAttrs key))
       (\<lambda>r. each_key e rest defaults json attrs ignoredAttrs
               (case r of None \<Rightarrow> obj | Some v \<Rightarrow> AList.update key v obj))"
  by (simp add: read_key_total)

declare each_key.simps(2) [simp del]

lemma buildAttributes_object:
  "buildAttributes e sch defaults json attrs ignoredAttrs = Inr r \<longleftrightarrow>
   (\<exists>obj. r = JObj obj \<and> each_key e (entries sch) defaults json attrs ignoredAttrs [] = Inr obj)"
  by (auto simp: buildAttributes.simps bind_eq_Inr)

lemmas build_eval = buildAttributes.simps each_key_step build_val.simps peek_def read_key_def
  index_of_def is_digit_def fallback_def coerce_def js_or_def each_values_def indexed_def
  sample_env_def sample_parseInt_def sample_parseFloat_def sample_isValidISO8601String_def

definition out_at :: "jv \<Rightarrow> string \<Rightarrow> jv option" where
  "out_at r k = (case r of JObj obj \<Rightarrow> map_of obj k | _ \<Rightarrow> None)"

lemma build_val_assigns:
  assumes "build_val e val defaultsVal jsonVal attrsVal ign = Inr r"
  shows "r \<noteq> None \<longleftrightarrow> ign \<noteq> JBool True \<and> (isObject val \<or> isString val)"
proof (cases "ign = JBool True")
  case True
  with assms show ?thesis by (simp add: build_val_ignored)
next
  case ign: False
  show ?thesis
  proof (cases val)
    case (JArr vs)
    with assms ign show ?thesis
      by (cases vs) (auto simp: build_val_marker build_val_array bind_eq_Inr split: if_splits)
  next
    case (JObj kvs)
    with assms ign show ?thesis
      by (cases kvs) (auto simp: build_val_marker build_val_object bind_eq_Inr split: if_splits)
  qed (use assms ign in \<open>auto simp: build_val_leaf build_val_marker build_val_other bind_eq_Inr\<close>)
qed

lemma each_key_keys:
  "each_key e kvs defaults json attrs ignoredAttrs obj = Inr obj' \<Longrightarrow>
   fst ` set obj' = fst ` set obj \<union>
     {k. \<exists>v. (k, v) \<in> set kvs \<and> (isObject v \<or> isString v) \<and> peek ignoredAttrs k \<noteq> JBool True}"
proof (induction kvs arbitrary: obj)
  case Nil
  then show ?case by simp
next
  case (Cons p kvs)
  obtain key val where p: "p = (key, val)" by (cases p)
  from Cons.prems p obtain r where
    r: "build_val e val (peek defaults key) (peek json key) (peek attrs key)
          (peek ignoredAttrs key) = Inr r"
    and rest: "each_key e kvs defaults json attrs ignoredAttrs
                 (case r of None \<Rightarrow> obj | Some v \<Rightarrow> AList.update key v obj) = Inr obj'"
    by (auto simp: each_key_step bind_eq_Inr)
  note keys = Cons.IH[OF rest]
  show ?case
  proof (cases r)
    case None
    with build_val_assigns[OF r] keys p show ?thesis by auto
  next
    case (Some v)
    with build_val_assigns[OF r] keys p show ?thesis by (auto simp: dom_update)
  qed
qed

lemma each_key_lookup:
  assumes "each_key e kvs defaults json attrs ignoredAttrs obj = Inr obj'"
    and "distinct (map fst kvs)"
  shows "case map_of kvs k of
           None \<Rightarrow> map_of obj' k = map_of obj k
         | Some v \<Rightarrow> \<exists>r. build_val e v (peek defaults k) (peek json k) (peek attrs k)
                            (peek ignoredAttrs k) = Inr r
                        \<and> map_of obj' k = (case r of None \<Rightarrow> map_of obj k | Some x \<Rightarrow> Some x)"
  using assms
proof (induction kvs arbitrary: obj)
  case Nil
  then show ?case by simp
next
  case (Cons p kvs)
  obtain key val where p: "p = (key, val)" by (cases p)
  from Cons.prems(1) p obtain r where
    r: "build_val e val (peek defaults key) (peek json key) (peek attrs key)
          (peek ignoredAttrs key) = Inr r"
    and rest: "each_key e kvs defaults json attrs ignoredAttrs
                 (case r of None \<Rightarrow> obj | Some v \<Rightarrow> AList.update key v obj) = Inr obj'"
    by (auto simp: each_key_step bind_eq_Inr)
  from Cons.prems(2) p have d: "distinct (map fst kvs)" and fresh: "map_of kvs key = None"
    by (auto simp: map_of_eq_None_iff)
  note IH = Cons.IH[OF rest d]
  show ?case
  proof (cases "k = key")
    case True
    with IH fresh r p show ?thesis
      by (cases r) (auto simp: update_conv')
  next
    case False
    with IH p show ?thesis
      by (cases r) (auto simp: update_conv' split: option.splits)
  qed
qed

lemma output_at:
  assumes "buildAttributes e (JObj kvs) defaults json attrs ignoredAttrs = Inr r"
    and "distinct (map fst kvs)" and "map_of kvs k = Some v"
  shows "build_val e v (peek defaults k) (peek json k) (peek attrs k) (peek ignoredAttrs k)
           = Inr (out_at r k)"
proof -
  from assms(1) obtain obj where r: "r = JObj obj"
    and ek: "each_key e kvs defaults json attrs ignoredAttrs [] = Inr obj"
    by (auto simp: buildAttributes_object)
  from each_key_lookup[OF ek assms(2), of k] assms(3) r show ?thesis
    by (auto simp: out_at_def split: option.splits)
qed

lemma peek_ignored: "peek m k = JBool True \<longleftrightarrow> read_key m k = Inr (JBool True)"
  by (simp add: read_key_total)

lemma returned_keys:
  assumes "buildAttributes e (JObj kvs) defaults json attrs ignoredAttrs = Inr r"
  shows "\<exists>obj. r = JObj obj \<and> fst ` set obj =
     {k. \<exists>v. (k, v) \<in> set kvs \<and> (isObject v \<or> isString v) \<and> peek ignoredAttrs k \<noteq> JBool True}"
proof -
  from assms obtain obj where r: "r = JObj obj"
    and ek: "each_key e kvs defaults json attrs ignoredAttrs [] = Inr obj"
    by (auto simp: buildAttributes_object)
  from each_key_keys[OF ek] r show ?thesis by simp
qed

lemma isArray_isObject: "isArray v \<Longrightarrow> isObject v"
  by (cases v) simp_all

section \<open>The key set of the result\<close>

text \<open>
  C1.  For a schema object whose values are all leaf-tag strings, arrays or objects, the
  object that \<open>buildAttributes\<close> returns has exactly the keys of the schema except those
  whose entry in the mask reads \<open>true\<close>, whatever \<open>json\<close>, \<open>attrs\<close> and \<open>defaults\<close> hold.
\<close>

theorem key_set:
  assumes "buildAttributes e (JObj kvs) defaults json attrs ignoredAttrs = Inr r"
    and "\<forall>v \<in> snd ` set kvs. isString v \<or> isArray v \<or> isObject v"
  shows "\<exists>obj. r = JObj obj
           \<and> fst ` set obj = fst ` set kvs - {k. read_key ignoredAttrs k = Inr (JBool True)}"
proof -
  from returned_keys[OF assms(1)] obtain obj where r: "r = JObj obj" and
    keys: "fst ` set obj = {k. \<exists>v. (k, v) \<in> set kvs \<and> (isObject v \<or> isString v)
                              \<and> peek ignoredAttrs k \<noteq> JBool True}" by blast
  have legal: "isObject v \<or> isString v" if "(k, v) \<in> set kvs" for k v
  proof -
    from that have "v \<in> snd ` set kvs" by force
    with assms(2) show ?thesis using isArray_isObject by blast
  qed
  have "{k. \<exists>v. (k, v) \<in> set kvs \<and> (isObject v \<or> isString v)
              \<and> peek ignoredAttrs k \<noteq> JBool True}
        = fst ` set kvs - {k. peek ignoredAttrs k = JBool True}" (is "?A = ?B")
  proof
    show "?A \<subseteq> ?B" by force
    show "?B \<subseteq> ?A" using legal by fastforce
  qed
  with keys have "fst ` set obj = fst ` set kvs - {k. read_key ignoredAttrs k = Inr (JBool True)}"
    by (simp add: read_key_total)
  with r show ?thesis by blast
qed

lemma key_set_example:
  "buildAttributes sample_env
     (JObj [(''name'', JStr ''string''), (''secret'', JStr ''string'')])
     JUndef
     (JObj [(''name'', JStr ''x''), (''secret'', JStr ''y'')])
     (JObj [(''secret'', JStr ''z'')])
     (JObj [(''secret'', JBool True)]) = Inr (JObj [(''name'', JStr ''x'')])"
  by (simp add: build_eval)

theorem key_set_witness:
  "\<exists>obj. buildAttributes sample_env
            (JObj [(''name'', JStr ''string''), (''secret'', JStr ''string'')])
            JUndef
            (JObj [(''name'', JStr ''x''), (''secret'', JStr ''y'')])
            (JObj [(''secret'', JStr ''z'')])
            (JObj [(''secret'', JBool True)]) = Inr (JObj obj)
         \<and> fst ` set obj = {''name''}"
proof -
  have "fst ` set [(''name'', JStr ''string''), (''secret'', JStr ''string'')]
          - {k. read_key (JObj [(''secret'', JBool True)]) k = Inr (JBool True)} = {''name''}"
    by (auto simp: read_key_def)
  then show ?thesis
    using key_set[OF key_set_example] key_set_example by simp
qed

section \<open>The exclusion mask\<close>






section \<open>Exceptions\<close>

text \<open>
  The guarded reads of the loop body never throw, so a call returns whenever the parsers
  return on every value.
\<close>

definition parsers_return :: "env \<Rightarrow> bool" where
  "parsers_return e \<longleftrightarrow>
     (\<forall>x. (\<exists>n. parseInt e x = Inr n) \<and> (\<exists>n. parseFloat e x = Inr n)
          \<and> (\<exists>b. isValidISO8601String e x = Inr b))"

lemma coerce_returns: "parsers_return e \<Longrightarrow> \<exists>v. coerce e tag jsonVal attrsVal defaultsVal = Inr v"
proof -
  assume "parsers_return e"
  then obtain n m b where h: "parseInt e jsonVal = Inr n" "parseFloat e jsonVal = Inr m"
    "isValidISO8601String e jsonVal = Inr b"
    unfolding parsers_return_def by meson
  show ?thesis unfolding coerce_def h bind_Inr by auto
qed

lemma returns_when_parsers_return:
  "parsers_return e \<Longrightarrow> \<exists>r. buildAttributes e sch defaults json attrs ignoredAttrs = Inr (JObj r)"
  "parsers_return e \<Longrightarrow> \<exists>r. each_key e kvs defaults json attrs ignoredAttrs obj = Inr r"
  "parsers_return e \<Longrightarrow> \<exists>r. build_val e val defaultsVal jsonVal attrsVal ignoredAttrsVal = Inr r"
  "parsers_return e \<Longrightarrow> \<exists>r. build_elems e val0 defaultsVal xs attrsVal ignoredAttrsVal = Inr r"
proof (induction e sch defaults json attrs ignoredAttrs
         and e kvs defaults json attrs ignoredAttrs obj
         and e val defaultsVal jsonVal attrsVal ignoredAttrsVal
         and e val0 defaultsVal xs attrsVal ignoredAttrsVal
       rule: buildAttributes_each_key_build_val_build_elems.induct)
  case (1 e sch defaults json attrs ignoredAttrs)
  then show ?case by (auto simp: buildAttributes.simps)
next
  case (2 e defaults json attrs ignoredAttrs obj)
  show ?case by simp
next
  case (3 e key val rest defaults json attrs ignoredAttrs obj)
  from 3(1)[OF read_key_total read_key_total read_key_total read_key_total 3(3)]
  obtain r where r: "build_val e val (peek defaults key) (peek json key) (peek attrs key)
                       (peek ignoredAttrs key) = Inr r" by blast
  from 3(2)[OF read_key_total read_key_total read_key_total read_key_total r 3(3)]
  show ?case by (simp add: each_key_step r)
next
  case (4 e val defaultsVal jsonVal attrsVal ign)
  note pr = \<open>parsers_return e\<close>
  show ?case
  proof (cases "ign = JBool True")
    case True
    then show ?thesis by (simp add: build_val_ignored)
  next
    case ign: False
    show ?thesis
    proof (cases val)
      case (JArr vs)
      show ?thesis
      proof (cases vs)
        case Nil
        with ign JArr show ?thesis by (simp add: build_val_marker)
      next
        case (Cons val0 vs')
        have "get_prop val ''0'' = Inr val0" using JArr Cons by (simp add: index_of_0)
        from 4(1)[OF ign _ _ _ this _ _ pr] JArr Cons ign show ?thesis
          by (auto simp: build_val_array)
      qed
    next
      case (JObj kvs)
      show ?thesis
      proof (cases kvs)
        case Nil
        with ign JObj show ?thesis by (simp add: build_val_marker)
      next
        case (Cons p ps)
        with 4(2)[OF ign _ _ _ _ _ pr] JObj ign show ?thesis
          by (auto simp: build_val_object)
      qed
    next
      case (JStr tag)
      with ign coerce_returns[OF pr, of tag jsonVal attrsVal defaultsVal] show ?thesis
        by (auto simp: build_val_leaf)
    qed (use ign in \<open>simp_all add: build_val_marker build_val_other\<close>)
  qed
next
  case (5 e val0 defaultsVal attrsVal ignoredAttrsVal)
  show ?case by simp
next
  case (6 e val0 defaultsVal jsonKeyVal others attrsVal ignoredAttrsVal)
  from 6(1)[OF 6(3)] obtain r where
    r: "buildAttributes e val0 defaultsVal jsonKeyVal attrsVal ignoredAttrsVal = Inr (JObj r)"
    by blast
  from 6(2)[OF r 6(3)] show ?case by (auto simp: r)
qed

text \<open>
  C4.  The claim that \<open>buildAttributes\<close> never raises fails on a leaf value that cannot be
  converted to a string: \<open>_.parseInt\<close> converts its argument first, and the conversion of
  \<open>{toString: 1}\<close> throws a TypeError, which nothing in \<open>buildAttributes\<close> catches.
\<close>

theorem unprintable_leaf_raises:
  "buildAttributes sample_env (JObj [(''count'', JStr ''integer'')])
     (JObj [(''count'', JNum (Fin 10))])
     (JObj [(''count'', JObj [(''toString'', JNum (Fin 1))])])
     (JObj [(''count'', JNum (Fin 3))])
     (JObj []) = Inl TypeError"
  by (simp add: build_eval)

section \<open>The value at one key\<close>

lemma built_value:
  assumes "buildAttributes e (JObj kvs) defaults json attrs ignoredAttrs = Inr r"
    and "distinct (map fst kvs)" and "map_of kvs key = Some val"
    and "read_key json key = Inr jsonVal" and "read_key defaults key = Inr defaultsVal"
    and "read_key attrs key = Inr attrsVal" and "read_key ignoredAttrs key = Inr ignVal"
  shows "build_val e val defaultsVal jsonVal attrsVal ignVal = Inr (out_at r key)"
proof -
  from assms(4-7) have "peek json key = jsonVal" "peek defaults key = defaultsVal"
    "peek attrs key = attrsVal" "peek ignoredAttrs key = ignVal"
    by (simp_all add: read_key_total)
  with output_at[OF assms(1,2,3)] show ?thesis by simp
qed







section \<open>Arrays of scalars\<close>

text \<open>
  C6, as amended.  For an array-of-scalars key whose json value is neither \<open>null\<close> nor
  \<open>undefined\<close>, the value built is the json value if that is truthy and the current
  attribute value otherwise; every array is truthy, the empty one too, so an empty
  sequence in \<open>json\<close> is built as the empty sequence.
\<close>

theorem scalar_array_truthy:
  assumes "buildAttributes e (JObj kvs) defaults json attrs ignoredAttrs = Inr r"
    and "distinct (map fst kvs)" and "map_of kvs key = Some (JArr (val0 # vs))"
    and "isString val0 \<or> isEmpty val0"
    and "read_key json key = Inr jsonVal" and "read_key defaults key = Inr defaultsVal"
    and "read_key attrs key = Inr attrsVal" and "read_key ignoredAttrs key = Inr ignVal"
    and "ignVal \<noteq> JBool True" and "\<not> isNull jsonVal" and "\<not> isUndefined jsonVal"
  shows "out_at r key = Some (if truthy jsonVal then jsonVal else attrsVal)
       \<and> (\<forall>xs. jsonVal = JArr xs \<longrightarrow> out_at r key = Some (JArr xs))"
  using built_value[OF assms(1,2,3,5,6,7,8)] assms(4,9,10,11)
  by (auto simp: build_val_array js_or_def)

lemma scalar_array_example:
  "buildAttributes sample_env (JObj [(''tags'', JArr [JStr ''string''])]) JUndef
     (JObj [(''tags'', JArr [])]) (JObj [(''tags'', JArr [JStr ''a'', JStr ''b''])]) JUndef
   = Inr (JObj [(''tags'', JArr [])])"
  by (simp add: build_eval)

theorem scalar_array_truthy_witness:
  "\<exists>r. buildAttributes sample_env (JObj [(''tags'', JArr [JStr ''string''])]) JUndef
          (JObj [(''tags'', JArr [])]) (JObj [(''tags'', JArr [JStr ''a'', JStr ''b''])]) JUndef
          = Inr r
       \<and> out_at r ''tags'' = Some (JArr [])"
  using scalar_array_truthy[OF scalar_array_example, of "''tags''" "JStr ''string''" "[]"
      "JArr []" JNull "JArr [JStr ''a'', JStr ''b'']" JNull] scalar_array_example
  by (simp add: read_key_def)

theorem scalar_array_counterexample:
  "buildAttributes sample_env (JObj [(''tags'', JArr [JStr ''string''])]) JUndef
     (JObj [(''tags'', JArr [])]) (JObj [(''tags'', JArr [JStr ''a'', JStr ''b''])]) JUndef
   \<noteq> Inr (JObj [(''tags'', JArr [JStr ''a'', JStr ''b''])])"
  by (simp add: build_eval)

section \<open>The empty string\<close>

text \<open>
  C7, as amended.  For the tags integer, uinteger, float, ufloat and timestamp, an empty
  string as json value gives the default if that is defined and the zero value of the type
  otherwise (0 for the numeric tags, \<open>null\<close> for timestamp); the current attribute value is
  not consulted.
\<close>

theorem empty_string_resets:
  assumes "tag \<in> {''integer'', ''uinteger'', ''float'', ''ufloat'', ''timestamp''}"
  shows "coerce e tag (JStr []) attrsVal defaultsVal
           = Inr (if \<not> isUndefined defaultsVal then defaultsVal
                  else if tag = ''timestamp'' then JNull else JNum (Fin 0))"
  using assms by (auto simp: coerce_def)

theorem empty_string_resets_witness:
  "coerce sample_env ''integer'' (JStr []) (JNum (Fin 3)) (JNum (Fin 10)) = Inr (JNum (Fin 10))"
  using empty_string_resets[of "''integer''" sample_env "JNum (Fin 3)" "JNum (Fin 10)"]
  by simp

theorem empty_string_counterexample:
  "coerce sample_env ''timestamp'' (JStr []) (JNum (Fin 50)) (JNum (Fin 7)) \<noteq> Inr (JNum (Fin 50))
   \<and> \<not> isUndefined (JNum (Fin 50))"
  by (simp add: coerce_def)

text \<open>
  C8.  For a ufloat key with a defined default, an empty string as json value gives the
  default, whatever the current attribute value is; with schema \<open>{price: "ufloat"}\<close>,
  defaults \<open>{price: 9.99}\<close>, attrs \<open>{price: 50}\<close> and json \<open>{price: ""}\<close> the result is
  \<open>{price: 9.99}\<close>.
\<close>

theorem ufloat_empty_string:
  "(\<not> isUndefined defaultsVal \<longrightarrow>
      coerce e ''ufloat'' (JStr []) attrsVal defaultsVal = Inr defaultsVal)
   \<and> buildAttributes e (JObj [(''price'', JStr ''ufloat'')])
        (JObj [(''price'', JNum (Fin (999 / 100)))]) (JObj [(''price'', JStr [])])
        (JObj [(''price'', JNum (Fin 50))]) JUndef
      = Inr (JObj [(''price'', JNum (Fin (999 / 100)))])"
  by (simp add: coerce_def buildAttributes.simps each_key_step build_val.simps peek_def
      read_key_def)

theorem ufloat_empty_string_witness:
  "coerce sample_env ''ufloat'' (JStr []) (JNum (Fin 50)) (JNum (Fin (999 / 100)))
     = Inr (JNum (Fin (999 / 100)))
   \<and> buildAttributes sample_env (JObj [(''price'', JStr ''ufloat'')])
        (JObj [(''price'', JNum (Fin (999 / 100)))]) (JObj [(''price'', JStr [])])
        (JObj [(''price'', JNum (Fin 50))]) JUndef
      = Inr (JObj [(''price'', JNum (Fin (999 / 100)))])"
  using ufloat_empty_string[of "JNum (Fin (999 / 100))" sample_env "JNum (Fin 50)"]
  by simp

section \<open>Empty container markers\<close>

text \<open>
  C9.  A schema key declared \<open>[]\<close> with neither a current attribute value nor a default is
  built as the empty object \<open>{}\<close>, not as the empty array: the branch for the markers
  \<open>[]\<close> and \<open>{}\<close> ends in \<open>{}\<close> for both.
\<close>

theorem empty_array_marker_gives_object:
  "buildAttributes sample_env (JObj [(''tags'', JArr [])]) (JObj []) (JObj []) (JObj []) JUndef
   = Inr (JObj [(''tags'', JObj [])])"
  by (simp add: build_eval)

section \<open>Merging the base schema\<close>

declare merge_val.simps [simp del]

lemma own_update: "own (AList.update k v al) k' = (if k' = k then v else own al k')"
  by (simp add: own_def update_conv')

lemma merge_obj_keys: "fst ` set (merge_obj object sk) = fst ` set object \<union> fst ` set sk"
proof (induction sk arbitrary: object)
  case Nil
  show ?case by simp
next
  case (Cons p sk)
  obtain key src where p: "p = (key, src)" by (cases p)
  have "fst ` set (merge_obj object (p # sk))
          = fst ` set (AList.update key (merge_val (own object key) src) object) \<union> fst ` set sk"
    using Cons.IH p by simp
  also have "\<dots> = fst ` set object \<union> fst ` set (p # sk)"
    using p by (simp add: dom_update)
  finally show ?case .
qed

lemma merge_val_leaf: "merge_val v (JStr tag) = JStr tag"
  by (simp add: merge_val.simps)

lemma merge_obj_absent:
  "k \<notin> fst ` set sk \<Longrightarrow> map_of (merge_obj object sk) k = map_of object k"
  by (induction sk arbitrary: object) (auto simp: update_conv')

lemma merge_obj_present:
  "distinct (map fst sk) \<Longrightarrow> map_of sk k = Some source \<Longrightarrow>
   map_of (merge_obj object sk) k = Some (merge_val (own object k) source)"
proof (induction sk arbitrary: object)
  case Nil
  then show ?case by simp
next
  case (Cons p sk)
  obtain key src where p: "p = (key, src)" by (cases p)
  show ?case
  proof (cases "k = key")
    case True
    with Cons.prems p have "k \<notin> fst ` set sk" "source = src" by auto
    with True p show ?thesis by (simp add: merge_obj_absent update_conv')
  next
    case False
    with Cons p show ?thesis by (simp add: own_update)
  qed
qed

lemma merge_arr_length: "length (merge_arr ds ss) = max (length ds) (length ss)"
proof (induction ss arbitrary: ds)
  case Nil
  show ?case by simp
next
  case (Cons s ss)
  show ?case by (cases ds) (simp_all add: Cons.IH)
qed

lemma merge_arr_keep:
  "length ss \<le> i \<Longrightarrow> i < length ds \<Longrightarrow> merge_arr ds ss ! i = ds ! i"
proof (induction ss arbitrary: ds i)
  case Nil
  show ?case by simp
next
  case (Cons s ss)
  from Cons.prems obtain d ds' where ds: "ds = d # ds'" by (cases ds) auto
  from Cons.prems obtain j where i: "i = Suc j" by (cases i) auto
  from Cons.prems ds i have "length ss \<le> j" "j < length ds'" by simp_all
  from Cons.IH[OF this] ds i show ?case by simp
qed

lemma merge_arr_nth:
  "i < length ss \<Longrightarrow>
   merge_arr ds ss ! i = merge_val (if i < length ds then ds ! i else JUndef) (ss ! i)"
proof (induction ss arbitrary: ds i)
  case Nil
  then show ?case by simp
next
  case (Cons s ss)
  show ?case
  proof (cases i)
    case 0
    then show ?thesis by (cases ds) simp_all
  next
    case (Suc j)
    with Cons.prems have j: "j < length ss" by simp
    show ?thesis
    proof (cases ds)
      case Nil
      with Suc Cons.IH[OF j, of "[]"] show ?thesis by simp
    next
      case (Cons d ds')
      with Suc Cons.IH[OF j, of ds'] show ?thesis by simp
    qed
  qed
qed

text \<open>
  C5, as amended.  When both schemas resolve to objects, \<open>combinedSchema\<close> returns the
  model-specific schema merged with the base schema, and the merge of objects, at every
  depth, obeys: the result has the keys of both; a key that the base lacks keeps the
  model-specific entry; a key whose base entry is a leaf tag carries the base entry, so the
  base wins on conflict; a key whose base entry is an object carries the merge of the
  model-specific entry (of \<open>{}\<close> if that is not an object) with the base entry; a key whose
  base entry is an array carries the merge of the model-specific entry (of \<open>[]\<close> if that is
  not an array) with the base entry.  The merge of arrays goes index by index under the
  same three rules, and keeps the model-specific elements beyond the base array's length.
\<close>

theorem base_wins:
  assumes "result (schema this) = JObj dk" and "result (baseSchema this) = JObj sk"
  shows "combinedSchema this = JObj (merge_obj dk sk)
    \<and> (\<forall>d s. distinct (map fst s) \<longrightarrow>
          fst ` set (merge_obj d s) = fst ` set d \<union> fst ` set s
        \<and> (\<forall>k. k \<notin> fst ` set s \<longrightarrow> map_of (merge_obj d s) k = map_of d k)
        \<and> (\<forall>k tag. map_of s k = Some (JStr tag) \<longrightarrow>
              map_of (merge_obj d s) k = Some (JStr tag))
        \<and> (\<forall>k s'. map_of s k = Some (JObj s') \<longrightarrow>
              map_of (merge_obj d s) k
                = Some (JObj (merge_obj (case own d k of JObj d' \<Rightarrow> d' | _ \<Rightarrow> []) s')))
        \<and> (\<forall>k ss. map_of s k = Some (JArr ss) \<longrightarrow>
              map_of (merge_obj d s) k
                = Some (JArr (merge_arr (case own d k of JArr ds \<Rightarrow> ds | _ \<Rightarrow> []) ss))))
    \<and> (\<forall>ds ss.
          length (merge_arr ds ss) = max (length ds) (length ss)
        \<and> (\<forall>i. length ss \<le> i \<and> i < length ds \<longrightarrow> merge_arr ds ss ! i = ds ! i)
        \<and> (\<forall>i tag. i < length ss \<and> ss ! i = JStr tag \<longrightarrow> merge_arr ds ss ! i = JStr tag)
        \<and> (\<forall>i s'. i < length ss \<and> ss ! i = JObj s' \<longrightarrow>
              merge_arr ds ss ! i
                = JObj (merge_obj (case (if i < length ds then ds ! i else JUndef) of
                                     JObj d' \<Rightarrow> d' | _ \<Rightarrow> []) s'))
        \<and> (\<forall>i ss'. i < length ss \<and> ss ! i = JArr ss' \<longrightarrow>
              merge_arr ds ss ! i
                = JArr (merge_arr (case (if i < length ds then ds ! i else JUndef) of
                                     JArr ds' \<Rightarrow> ds' | _ \<Rightarrow> []) ss')))"
proof -
  have top: "combinedSchema this = JObj (merge_obj dk sk)"
    using assms by (simp add: combinedSchema_def)
  have objs: "fst ` set (merge_obj d s) = fst ` set d \<union> fst ` set s
        \<and> (\<forall>k. k \<notin> fst ` set s \<longrightarrow> map_of (merge_obj d s) k = map_of d k)
        \<and> (\<forall>k tag. map_of s k = Some (JStr tag) \<longrightarrow>
              map_of (merge_obj d s) k = Some (JStr tag))
        \<and> (\<forall>k s'. map_of s k = Some (JObj s') \<longrightarrow>
              map_of (merge_obj d s) k
                = Some (JObj (merge_obj (case own d k of JObj d' \<Rightarrow> d' | _ \<Rightarrow> []) s')))
        \<and> (\<forall>k ss. map_of s k = Some (JArr ss) \<longrightarrow>
              map_of (merge_obj d s) k
                = Some (JArr (merge_arr (case own d k of JArr ds \<Rightarrow> ds | _ \<Rightarrow> []) ss)))"
    if "distinct (map fst s)" for d s
    by (intro conjI allI impI)
       (simp_all add: merge_obj_keys merge_obj_absent merge_obj_present[OF that] merge_val.simps)
  have arrs: "length (merge_arr ds ss) = max (length ds) (length ss)
        \<and> (\<forall>i. length ss \<le> i \<and> i < length ds \<longrightarrow> merge_arr ds ss ! i = ds ! i)
        \<and> (\<forall>i tag. i < length ss \<and> ss ! i = JStr tag \<longrightarrow> merge_arr ds ss ! i = JStr tag)
        \<and> (\<forall>i s'. i < length ss \<and> ss ! i = JObj s' \<longrightarrow>
              merge_arr ds ss ! i
                = JObj (merge_obj (case (if i < length ds then ds ! i else JUndef) of
                                     JObj d' \<Rightarrow> d' | _ \<Rightarrow> []) s'))
        \<and> (\<forall>i ss'. i < length ss \<and> ss ! i = JArr ss' \<longrightarrow>
              merge_arr ds ss ! i
                = JArr (merge_arr (case (if i < length ds then ds ! i else JUndef) of
                                     JArr ds' \<Rightarrow> ds' | _ \<Rightarrow> []) ss'))" for ds ss
    by (intro conjI allI impI)
       (simp_all add: merge_arr_length merge_arr_keep merge_arr_nth merge_val.simps)
  from top objs arrs show ?thesis by blast
qed

lemma base_wins_example:
  "combinedSchema
     \<lparr> schema = Static (JObj [(''name'', JStr ''string''),
                              (''addr'', JObj [(''city'', JStr ''string'')])]),
       baseSchema = Producer (\<lambda>_. JObj [(''name'', JStr ''id''),
                              (''addr'', JObj [(''zip'', JStr ''integer'')]),
                              (''_id'', JStr ''id'')]) \<rparr>
   = JObj [(''name'', JStr ''id''),
           (''addr'', JObj [(''city'', JStr ''string''), (''zip'', JStr ''integer'')]),
           (''_id'', JStr ''id'')]"
  by (simp add: combinedSchema_def own_def merge_val.simps)

theorem base_wins_witness:
  "\<exists>ck ca. combinedSchema
     \<lparr> schema = Static (JObj [(''name'', JStr ''string''),
                              (''addr'', JObj [(''city'', JStr ''string'')])]),
       baseSchema = Producer (\<lambda>_. JObj [(''name'', JStr ''id''),
                              (''addr'', JObj [(''zip'', JStr ''integer'')]),
                              (''_id'', JStr ''id'')]) \<rparr> = JObj ck
     \<and> map_of ck ''name'' = Some (JStr ''id'')
     \<and> map_of ck ''addr'' = Some (JObj ca)
     \<and> map_of ca ''city'' = Some (JStr ''string'')
     \<and> map_of ca ''zip'' = Some (JStr ''integer'')"
proof -
  let ?dk = "[(''name'', JStr ''string''), (''addr'', JObj [(''city'', JStr ''string'')])]"
  let ?sk = "[(''name'', JStr ''id''), (''addr'', JObj [(''zip'', JStr ''integer'')]),
              (''_id'', JStr ''id'')]"
  let ?m = "\<lparr> schema = Static (JObj ?dk), baseSchema = Producer (\<lambda>_. JObj ?sk) \<rparr>"
  have 1: "result (schema ?m) = JObj ?dk" by simp
  have 2: "result (baseSchema ?m) = JObj ?sk" by simp
  note bw = base_wins[OF 1 2]
  from bw have top: "combinedSchema ?m = JObj (merge_obj ?dk ?sk)" by (rule conjunct1)
  from bw have objs: "\<And>d s. distinct (map fst s) \<Longrightarrow>
          (\<forall>k. k \<notin> fst ` set s \<longrightarrow> map_of (merge_obj d s) k = map_of d k)
        \<and> (\<forall>k tag. map_of s k = Some (JStr tag) \<longrightarrow>
              map_of (merge_obj d s) k = Some (JStr tag))
        \<and> (\<forall>k s'. map_of s k = Some (JObj s') \<longrightarrow>
              map_of (merge_obj d s) k
                = Some (JObj (merge_obj (case own d k of JObj d' \<Rightarrow> d' | _ \<Rightarrow> []) s')))"
    by blast
  have dsk: "distinct (map fst ?sk)" by simp
  have sname: "map_of ?sk ''name'' = Some (JStr ''id'')" by simp
  have saddr: "map_of ?sk ''addr'' = Some (JObj [(''zip'', JStr ''integer'')])" by simp
  have name: "map_of (merge_obj ?dk ?sk) ''name'' = Some (JStr ''id'')"
    using objs[OF dsk, of ?dk] sname by blast
  have "map_of (merge_obj ?dk ?sk) ''addr''
          = Some (JObj (merge_obj (case own ?dk ''addr'' of JObj d' \<Rightarrow> d' | _ \<Rightarrow> [])
                          [(''zip'', JStr ''integer'')]))"
    using objs[OF dsk, of ?dk] saddr by blast
  moreover have "(case own ?dk ''addr'' of JObj d' \<Rightarrow> d' | _ \<Rightarrow> []) = [(''city'', JStr ''string'')]"
    by (simp add: own_def)
  ultimately have addr: "map_of (merge_obj ?dk ?sk) ''addr''
          = Some (JObj (merge_obj [(''city'', JStr ''string'')] [(''zip'', JStr ''integer'')]))"
    by (simp only:)
  have dz: "distinct (map fst [(''zip'', JStr ''integer'')])" by simp
  have nocity: "''city'' \<notin> fst ` set [(''zip'', JStr ''integer'')]" by simp
  have szip: "map_of [(''zip'', JStr ''integer'')] ''zip'' = Some (JStr ''integer'')" by simp
  have "map_of (merge_obj [(''city'', JStr ''string'')] [(''zip'', JStr ''integer'')]) ''city''
          = map_of [(''city'', JStr ''string'')] ''city''"
    using objs[OF dz, of "[(''city'', JStr ''string'')]"] nocity by blast
  then have city: "map_of (merge_obj [(''city'', JStr ''string'')] [(''zip'', JStr ''integer'')]) ''city''
                = Some (JStr ''string'')"
    by (simp only: map_of.simps fst_conv snd_conv fun_upd_same)
  have zip: "map_of (merge_obj [(''city'', JStr ''string'')] [(''zip'', JStr ''integer'')]) ''zip''
                = Some (JStr ''integer'')"
    using objs[OF dz, of "[(''city'', JStr ''string'')]"] szip by blast
  from top name addr city zip show ?thesis by blast
qed

text \<open>
  The claim as stated fails on a shared key: the base entry \<open>'integer'\<close> replaces the
  model-specific entry \<open>'string'\<close>.
\<close>

theorem model_entry_loses_counterexample:
  "combinedSchema \<lparr> schema = Static (JObj [(''name'', JStr ''string'')]),
                    baseSchema = Static (JObj [(''name'', JStr ''integer'')]) \<rparr>
     = JObj [(''name'', JStr ''integer'')]
   \<and> JStr ''integer'' \<noteq> JStr ''string''"
  by (simp add: combinedSchema_def own_def merge_val.simps)

section \<open>Building from a built result\<close>

text \<open>
  The schema nodes on which a second pass over the result changes nothing: the markers
  \<open>[]\<close> and \<open>{}\<close>, and the leaf tags other than the numeric ones and timestamp.
\<close>

fun idem_node :: "jv \<Rightarrow> bool" where
  "idem_node (JStr tag) =
     (tag \<notin> {''integer'', ''uinteger'', ''float'', ''ufloat'', ''timestamp''})"
| "idem_node (JArr xs) = (xs = [])"
| "idem_node (JObj kvs) = (kvs = [])"
| "idem_node _ = False"

definition value_or_undefined :: "jv option \<Rightarrow> jv" where
  "value_or_undefined r = (case r of Some x \<Rightarrow> x | None \<Rightarrow> JUndef)"

lemma peek_object: "peek (JObj obj) k = value_or_undefined (map_of obj k)"
  by (simp add: peek_def read_key_def value_or_undefined_def split: option.splits)

lemma fallback_cases:
  "fallback attrsVal defaultsVal z = attrsVal \<and> \<not> isUndefined attrsVal
   \<or> fallback attrsVal defaultsVal z = defaultsVal \<and> isUndefined attrsVal \<and> \<not> isUndefined defaultsVal
   \<or> fallback attrsVal defaultsVal z = z \<and> isUndefined attrsVal \<and> isUndefined defaultsVal"
  by (simp add: fallback_def)

lemma coerce_boolean:
  "coerce e ''boolean'' jsonVal attrsVal defaultsVal
     = Inr (if \<not> isBoolean jsonVal then fallback attrsVal defaultsVal (JBool False) else jsonVal)"
  by (simp add: coerce_def)

lemma coerce_id:
  "coerce e ''id'' jsonVal attrsVal defaultsVal
     = Inr (if \<not> isString jsonVal \<and> \<not> isNull jsonVal then fallback attrsVal defaultsVal JNull
            else jsonVal)"
  by (simp add: coerce_def)

lemma coerce_string:
  "coerce e ''string'' jsonVal attrsVal defaultsVal
     = Inr (if \<not> isString jsonVal \<and> \<not> isNull jsonVal then fallback attrsVal defaultsVal JNull
            else jsonVal)"
  by (simp add: coerce_def)

lemma coerce_date:
  "coerce e ''date'' jsonVal attrsVal defaultsVal
     = bind (isValidISO8601String e jsonVal) (\<lambda>iso.
         Inr (if \<not> iso \<and> \<not> isDate jsonVal \<and> \<not> isNull jsonVal
              then fallback attrsVal defaultsVal JNull else jsonVal))"
  by (simp add: coerce_def if_distrib[of Inr] cong: if_cong)

lemma coerce_unrecognised:
  "tag \<notin> {''integer'', ''uinteger'', ''float'', ''ufloat'', ''timestamp'', ''boolean'',
            ''id'', ''string'', ''date''} \<Longrightarrow>
   coerce e tag jsonVal attrsVal defaultsVal = Inr jsonVal"
  by (simp add: coerce_def)

lemma coerce_idem:
  assumes "tag \<notin> {''integer'', ''uinteger'', ''float'', ''ufloat'', ''timestamp''}"
    and "coerce e tag jsonVal attrsVal defaultsVal = Inr x"
    and "coerce e tag x attrsVal defaultsVal = Inr x'"
  shows "x' = x"
proof -
  have "tag = ''boolean'' \<or> tag = ''id'' \<or> tag = ''string'' \<or> tag = ''date''
    \<or> tag \<notin> {''integer'', ''uinteger'', ''float'', ''ufloat'', ''timestamp'', ''boolean'',
                ''id'', ''string'', ''date''}"
    using assms(1) by (simp only: insert_iff empty_iff) fast
  then consider "tag = ''boolean''" | "tag = ''id''" | "tag = ''string''" | "tag = ''date''"
    | "tag \<notin> {''integer'', ''uinteger'', ''float'', ''ufloat'', ''timestamp'', ''boolean'',
                ''id'', ''string'', ''date''}"
    by argo
  then show ?thesis
  proof cases
    case 1
    with assms(2,3) show ?thesis
      unfolding 1 coerce_boolean by (auto split: if_splits)
  next
    case 2
    with assms(2,3) show ?thesis
      unfolding 2 coerce_id by (auto split: if_splits)
  next
    case 3
    with assms(2,3) show ?thesis
      unfolding 3 coerce_string by (auto split: if_splits)
  next
    case 4
    from assms(2) obtain iso where iso: "isValidISO8601String e jsonVal = Inr iso"
      and x: "x = (if \<not> iso \<and> \<not> isDate jsonVal \<and> \<not> isNull jsonVal
                   then fallback attrsVal defaultsVal JNull else jsonVal)"
      unfolding 4 coerce_date by (auto simp: bind_eq_Inr)
    from assms(3) obtain iso' where iso': "isValidISO8601String e x = Inr iso'"
      and x': "x' = (if \<not> iso' \<and> \<not> isDate x \<and> \<not> isNull x
                     then fallback attrsVal defaultsVal JNull else x)"
      unfolding 4 coerce_date by (auto simp: bind_eq_Inr)
    show ?thesis
    proof (cases "\<not> iso \<and> \<not> isDate jsonVal \<and> \<not> isNull jsonVal")
      case True
      with x x' show ?thesis by simp
    next
      case False
      with x have "x = jsonVal" by simp
      with iso iso' have "iso' = iso" by simp
      with x x' \<open>x = jsonVal\<close> False show ?thesis by auto
    qed
  next
    case 5
    with assms(2,3) show ?thesis
      by (simp add: coerce_unrecognised)
  qed
qed

lemma build_val_idem:
  assumes "idem_node val"
    and "build_val e val defaultsVal jsonVal attrsVal ign = Inr a"
    and "build_val e val defaultsVal (value_or_undefined a) attrsVal ign = Inr b"
  shows "b = a"
proof (cases "ign = JBool True")
  case True
  with assms(2,3) show ?thesis by (simp add: build_val_ignored)
next
  case ign: False
  show ?thesis
  proof (cases val)
    case (JStr tag)
    from assms(2) JStr ign obtain x where x: "coerce e tag jsonVal attrsVal defaultsVal = Inr x"
      and a: "a = Some x" by (auto simp: build_val_leaf bind_eq_Inr)
    from assms(3) JStr ign a obtain x' where x': "coerce e tag x attrsVal defaultsVal = Inr x'"
      and b: "b = Some x'" by (auto simp: build_val_leaf bind_eq_Inr value_or_undefined_def)
    from assms(1) JStr have "tag \<notin> {''integer'', ''uinteger'', ''float'', ''ufloat'', ''timestamp''}"
      by simp
    from coerce_idem[OF this x x'] a b show ?thesis by simp
  next
    case (JArr xs)
    with assms ign show ?thesis by (simp add: build_val_marker)
  next
    case (JObj kvs)
    with assms ign show ?thesis by (simp add: build_val_marker)
  qed (use assms(1) in simp_all)
qed

lemma each_key_agree:
  assumes "each_key e kvs defaults json attrs ignoredAttrs obj = Inr o1"
    and "each_key e kvs defaults json' attrs ignoredAttrs obj = Inr o2"
    and "\<And>k v a b. (k, v) \<in> set kvs \<Longrightarrow>
           build_val e v (peek defaults k) (peek json k) (peek attrs k) (peek ignoredAttrs k) = Inr a \<Longrightarrow>
           build_val e v (peek defaults k) (peek json' k) (peek attrs k) (peek ignoredAttrs k) = Inr b \<Longrightarrow>
           a = b"
  shows "o1 = o2"
  using assms
proof (induction kvs arbitrary: obj)
  case Nil
  then show ?case by simp
next
  case (Cons p kvs)
  obtain key val where p: "p = (key, val)" by (cases p)
  from Cons.prems(1) p obtain a where
    a: "build_val e val (peek defaults key) (peek json key) (peek attrs key)
          (peek ignoredAttrs key) = Inr a"
    and rest1: "each_key e kvs defaults json attrs ignoredAttrs
                 (case a of None \<Rightarrow> obj | Some v \<Rightarrow> AList.update key v obj) = Inr o1"
    by (auto simp: each_key_step bind_eq_Inr)
  from Cons.prems(2) p obtain b where
    b: "build_val e val (peek defaults key) (peek json' key) (peek attrs key)
          (peek ignoredAttrs key) = Inr b"
    and rest2: "each_key e kvs defaults json' attrs ignoredAttrs
                 (case b of None \<Rightarrow> obj | Some v \<Rightarrow> AList.update key v obj) = Inr o2"
    by (auto simp: each_key_step bind_eq_Inr)
  from Cons.prems(3)[OF _ a b] p have "a = b" by simp
  with rest2 have rest2': "each_key e kvs defaults json' attrs ignoredAttrs
                 (case a of None \<Rightarrow> obj | Some v \<Rightarrow> AList.update key v obj) = Inr o2" by simp
  show ?case
    by (rule Cons.IH[OF rest1 rest2']) (use Cons.prems(3) in auto)
qed

text \<open>
  C3, as amended.  On a schema whose entries are all markers \<open>[]\<close> or \<open>{}\<close> or leaf tags
  other than integer, uinteger, float, ufloat and timestamp, building again from the
  result of a build, with the same defaults, attrs and mask, returns that result.
\<close>

theorem idempotent_on_stable_nodes:
  assumes "buildAttributes e (JObj kvs) defaults json attrs ignoredAttrs = Inr r"
    and "buildAttributes e (JObj kvs) defaults r attrs ignoredAttrs = Inr r'"
    and "distinct (map fst kvs)"
    and "\<forall>v \<in> snd ` set kvs. idem_node v"
  shows "r' = r"
proof -
  from assms(1) obtain obj where r: "r = JObj obj"
    and ek: "each_key e kvs defaults json attrs ignoredAttrs [] = Inr obj"
    by (auto simp: buildAttributes_object)
  from assms(2) obtain obj' where r': "r' = JObj obj'"
    and ek': "each_key e kvs defaults r attrs ignoredAttrs [] = Inr obj'"
    by (auto simp: buildAttributes_object)
  have "a = b"
    if kv: "(k, v) \<in> set kvs"
      and a: "build_val e v (peek defaults k) (peek json k) (peek attrs k) (peek ignoredAttrs k) = Inr a"
      and b: "build_val e v (peek defaults k) (peek r k) (peek attrs k) (peek ignoredAttrs k) = Inr b"
    for k v a b
  proof -
    from kv assms(3) have "map_of kvs k = Some v" by simp
    from output_at[OF assms(1,3) this] a have "a = out_at r k" by simp
    with r have "peek r k = value_or_undefined a" by (simp add: peek_object out_at_def)
    with b have b': "build_val e v (peek defaults k) (value_or_undefined a) (peek attrs k)
                       (peek ignoredAttrs k) = Inr b" by simp
    from kv assms(4) have "idem_node v" by force
    from build_val_idem[OF this a b'] show ?thesis by simp
  qed
  from each_key_agree[OF ek ek' this] r r' show ?thesis by simp
qed

lemma idempotent_example_first:
  "buildAttributes sample_env
     (JObj [(''name'', JStr ''string''), (''on'', JStr ''boolean''), (''meta'', JObj [])])
     (JObj [(''on'', JBool True)])
     (JObj [(''name'', JNum (Fin 5)), (''on'', JStr ''yes'')])
     (JObj [(''name'', JStr ''x''), (''meta'', JObj [(''a'', JNum (Fin 1))])]) (JObj [])
   = Inr (JObj [(''name'', JStr ''x''), (''on'', JBool True),
                (''meta'', JObj [(''a'', JNum (Fin 1))])])"
  by (simp add: build_eval)

lemma idempotent_example_second:
  "buildAttributes sample_env
     (JObj [(''name'', JStr ''string''), (''on'', JStr ''boolean''), (''meta'', JObj [])])
     (JObj [(''on'', JBool True)])
     (JObj [(''name'', JStr ''x''), (''on'', JBool True),
            (''meta'', JObj [(''a'', JNum (Fin 1))])])
     (JObj [(''name'', JStr ''x''), (''meta'', JObj [(''a'', JNum (Fin 1))])]) (JObj [])
   = Inr (JObj [(''name'', JStr ''x''), (''on'', JBool True),
                (''meta'', JObj [(''a'', JNum (Fin 1))])])"
  by (simp add: build_eval)

theorem idempotent_on_stable_nodes_witness:
  "\<exists>r. buildAttributes sample_env
          (JObj [(''name'', JStr ''string''), (''on'', JStr ''boolean''), (''meta'', JObj [])])
          (JObj [(''on'', JBool True)])
          (JObj [(''name'', JNum (Fin 5)), (''on'', JStr ''yes'')])
          (JObj [(''name'', JStr ''x''), (''meta'', JObj [(''a'', JNum (Fin 1))])]) (JObj [])
        = Inr r
      \<and> buildAttributes sample_env
          (JObj [(''name'', JStr ''string''), (''on'', JStr ''boolean''), (''meta'', JObj [])])
          (JObj [(''on'', JBool True)]) r
          (JObj [(''name'', JStr ''x''), (''meta'', JObj [(''a'', JNum (Fin 1))])]) (JObj [])
        = Inr r"
  using idempotent_on_stable_nodes[OF idempotent_example_first idempotent_example_second]
    idempotent_example_first idempotent_example_second
  by simp

text \<open>
  The claim as stated fails on a nested object with partial defaults: the json value \<open>{}\<close>
  resets \<open>a\<close> to its default \<open>{b: "x"}\<close>, and the second pass builds that default
  against the nested schema, which adds the key \<open>c\<close>.
\<close>

theorem partial_defaults_counterexample:
  "buildAttributes sample_env
     (JObj [(''a'', JObj [(''b'', JStr ''string''), (''c'', JStr ''string'')])])
     (JObj [(''a'', JObj [(''b'', JStr ''x'')])])
     (JObj [(''a'', JObj [])]) (JObj []) (JObj [])
   = Inr (JObj [(''a'', JObj [(''b'', JStr ''x'')])])
   \<and> buildAttributes sample_env
     (JObj [(''a'', JObj [(''b'', JStr ''string''), (''c'', JStr ''string'')])])
     (JObj [(''a'', JObj [(''b'', JStr ''x'')])])
     (JObj [(''a'', JObj [(''b'', JStr ''x'')])]) (JObj []) (JObj [])
   = Inr (JObj [(''a'', JObj [(''b'', JStr ''x''), (''c'', JNull)])])"
  by (simp add: build_eval)

text \<open>
  The other kinds of node are left out of the amended claim because each of them has an
  input on which the second pass differs from the first: a negative current value under
  uinteger is kept by the first pass and clamped by the second; an invalid default under
  timestamp is returned by the first pass and rejected by the second; a falsy json value
  for an array of scalars gives \<open>undefined\<close> first and \<open>[]\<close> second.
\<close>

lemma uinteger_second_pass_clamps:
  "buildAttributes sample_env (JObj [(''n'', JStr ''uinteger'')]) (JObj [])
     (JObj [(''n'', JStr ''abc'')]) (JObj [(''n'', JNum (Fin (- 5)))]) (JObj [])
   = Inr (JObj [(''n'', JNum (Fin (- 5)))])
   \<and> buildAttributes sample_env (JObj [(''n'', JStr ''uinteger'')]) (JObj [])
     (JObj [(''n'', JNum (Fin (- 5)))]) (JObj [(''n'', JNum (Fin (- 5)))]) (JObj [])
   = Inr (JObj [(''n'', JNum (Fin 0))])"
  by (simp add: build_eval is_space_def signed_def digits_val_def)

lemma timestamp_second_pass_differs:
  "buildAttributes sample_env (JObj [(''t'', JStr ''timestamp'')]) (JObj [(''t'', JStr ''never'')])
     (JObj [(''t'', JStr [])]) (JObj [(''t'', JNum (Fin 5))]) (JObj [])
   = Inr (JObj [(''t'', JStr ''never'')])
   \<and> buildAttributes sample_env (JObj [(''t'', JStr ''timestamp'')]) (JObj [(''t'', JStr ''never'')])
     (JObj [(''t'', JStr ''never'')]) (JObj [(''t'', JNum (Fin 5))]) (JObj [])
   = Inr (JObj [(''t'', JNum (Fin 5))])"
  by (simp add: build_eval)

lemma scalar_array_second_pass_differs:
  "buildAttributes sample_env (JObj [(''tags'', JArr [JStr ''string''])]) (JObj [])
     (JObj [(''tags'', JNum (Fin 0))]) (JObj []) (JObj [])
   = Inr (JObj [(''tags'', JUndef)])
   \<and> buildAttributes sample_env (JObj [(''tags'', JArr [JStr ''string''])]) (JObj [])
     (JObj [(''tags'', JUndef)]) (JObj []) (JObj [])
   = Inr (JObj [(''tags'', JArr [])])"
  by (simp add: build_eval)

end
